theory Spec2Isabelle
  imports Complex_Main "HOL-Library.AList" "HOL-Library.Char_ord" "HOL-Library.List_Lexorder"
    "HOL-Library.Sublist"
begin

section \<open>Floating-point cells\<close>

text \<open>
  Every cell of a pandas column of the scanner is a float64. A cell is modelled as a real
  number, one of the two infinities, or NaN (pandas' marker of a missing or undefined
  value). Rounding, overflow and the sign of zero are not modelled: finite arithmetic is
  exact arithmetic on the reals, and a zero divisor is taken as +0.
\<close>

datatype fl = NaN | PInf | NInf | Fin real

text \<open>Comparisons: every comparison with NaN is false.\<close>

fun fl_lt :: "fl \<Rightarrow> fl \<Rightarrow> bool" where
  "fl_lt NaN _ = False"
| "fl_lt _ NaN = False"
| "fl_lt (Fin a) (Fin b) = (a < b)"
| "fl_lt NInf NInf = False"
| "fl_lt NInf _ = True"
| "fl_lt PInf _ = False"
| "fl_lt (Fin _) PInf = True"
| "fl_lt (Fin _) NInf = False"

fun fl_le :: "fl \<Rightarrow> fl \<Rightarrow> bool" where
  "fl_le NaN _ = False"
| "fl_le _ NaN = False"
| "fl_le (Fin a) (Fin b) = (a \<le> b)"
| "fl_le NInf _ = True"
| "fl_le PInf PInf = True"
| "fl_le PInf _ = False"
| "fl_le (Fin _) PInf = True"
| "fl_le (Fin _) NInf = False"

definition fl_gt :: "fl \<Rightarrow> fl \<Rightarrow> bool" where
  "fl_gt a b = fl_lt b a"

definition fl_ge :: "fl \<Rightarrow> fl \<Rightarrow> bool" where
  "fl_ge a b = fl_le b a"

text \<open>Arithmetic, with the IEEE 754 rules for NaN, the infinities and division by zero.\<close>

fun fl_neg :: "fl \<Rightarrow> fl" where
  "fl_neg NaN = NaN"
| "fl_neg PInf = NInf"
| "fl_neg NInf = PInf"
| "fl_neg (Fin a) = Fin (- a)"

fun fl_add :: "fl \<Rightarrow> fl \<Rightarrow> fl" where
  "fl_add NaN _ = NaN"
| "fl_add _ NaN = NaN"
| "fl_add (Fin a) (Fin b) = Fin (a + b)"
| "fl_add PInf NInf = NaN"
| "fl_add NInf PInf = NaN"
| "fl_add PInf _ = PInf"
| "fl_add NInf _ = NInf"
| "fl_add (Fin _) PInf = PInf"
| "fl_add (Fin _) NInf = NInf"

definition fl_sub :: "fl \<Rightarrow> fl \<Rightarrow> fl" where
  "fl_sub a b = fl_add a (fl_neg b)"

fun fl_mul :: "fl \<Rightarrow> fl \<Rightarrow> fl" where
  "fl_mul NaN _ = NaN"
| "fl_mul _ NaN = NaN"
| "fl_mul (Fin a) (Fin b) = Fin (a * b)"
| "fl_mul PInf PInf = PInf"
| "fl_mul PInf NInf = NInf"
| "fl_mul NInf PInf = NInf"
| "fl_mul NInf NInf = PInf"
| "fl_mul PInf (Fin b) = (if b = 0 then NaN else if 0 < b then PInf else NInf)"
| "fl_mul NInf (Fin b) = (if b = 0 then NaN else if 0 < b then NInf else PInf)"
| "fl_mul (Fin a) PInf = (if a = 0 then NaN else if 0 < a then PInf else NInf)"
| "fl_mul (Fin a) NInf = (if a = 0 then NaN else if 0 < a then NInf else PInf)"

fun fl_div :: "fl \<Rightarrow> fl \<Rightarrow> fl" where
  "fl_div NaN _ = NaN"
| "fl_div _ NaN = NaN"
| "fl_div (Fin a) (Fin b) =
     (if b = 0 then (if a = 0 then NaN else if 0 < a then PInf else NInf) else Fin (a / b))"
| "fl_div (Fin _) PInf = Fin 0"
| "fl_div (Fin _) NInf = Fin 0"
| "fl_div PInf (Fin b) = (if 0 \<le> b then PInf else NInf)"
| "fl_div NInf (Fin b) = (if 0 \<le> b then NInf else PInf)"
| "fl_div PInf _ = NaN"
| "fl_div NInf _ = NaN"

text \<open>
  Python's builtin \<^verbatim>\<open>max(a, b)\<close>: the first argument is kept unless the second is
  strictly greater.
\<close>

definition py_max :: "fl \<Rightarrow> fl \<Rightarrow> fl" where
  "py_max a b = (if fl_gt b a then b else a)"

section \<open>Data frames\<close>

text \<open>
  A DataFrame is its index (one label per row, here the trading date already formatted as
  \<^verbatim>\<open>YYYY-MM-DD\<close>) and its columns in order, each a list of cells. A Python exception is a
  value of \<open>py_error\<close>.
\<close>

datatype py_error = KeyError | ValueError | IndexError

record frame =
  idx :: "string list"
  cols :: "(string \<times> fl list) list"

type_synonym row = "(string \<times> fl) list"

text \<open>\<^verbatim>\<open>df[name]\<close>: KeyError when the column is absent.\<close>

definition getitem :: "frame \<Rightarrow> string \<Rightarrow> py_error + fl list" where
  "getitem df name = (case map_of (cols df) name of None \<Rightarrow> Inl KeyError | Some c \<Rightarrow> Inr c)"

text \<open>\<^verbatim>\<open>df[name] = c\<close>: replaces the column in place, or appends it after the others.\<close>

definition setitem :: "frame \<Rightarrow> string \<Rightarrow> fl list \<Rightarrow> frame" where
  "setitem df name c = df\<lparr>cols := AList.update name c (cols df)\<rparr>"

text \<open>\<^verbatim>\<open>df.empty\<close>: no rows or no columns.\<close>

definition df_empty :: "frame \<Rightarrow> bool" where
  "df_empty df = (idx df = [] \<or> cols df = [])"

text \<open>A cell by position; a position past the end of a column holds no value.\<close>

definition cell :: "fl list \<Rightarrow> nat \<Rightarrow> fl" where
  "cell c i = (if i < length c then c ! i else NaN)"

text \<open>\<^verbatim>\<open>df.iloc[-1]\<close>: the last row, as a mapping from column name to cell.\<close>

definition iloc_last :: "frame \<Rightarrow> py_error + row" where
  "iloc_last df =
     (if idx df = [] then Inl IndexError
      else Inr (map (\<lambda>(name, c). (name, cell c (length (idx df) - 1))) (cols df)))"

text \<open>\<^verbatim>\<open>latest[name]\<close> on a row: KeyError when the label is absent.\<close>

definition row_get :: "row \<Rightarrow> string \<Rightarrow> py_error + fl" where
  "row_get latest name = (case map_of latest name of None \<Rightarrow> Inl KeyError | Some v \<Rightarrow> Inr v)"

section \<open>pandas column operations\<close>

text \<open>
  \<^verbatim>\<open>Series.rolling(window=w)\<close> raises ValueError for a negative window. With the default
  \<^verbatim>\<open>min_periods\<close> (the window itself), the aggregate at row \<open>i\<close> looks at rows
  \<open>i+1-w .. i\<close> (cut at row 0), counts as observations the finite cells among them
  (NaN and the infinities are dropped), and has a value only when there are \<open>w\<close>
  observations and at least one.
\<close>

definition rolling :: "int \<Rightarrow> py_error + nat" where
  "rolling w = (if w < 0 then Inl ValueError else Inr (nat w))"

definition window_at :: "nat \<Rightarrow> fl list \<Rightarrow> nat \<Rightarrow> fl list" where
  "window_at w xs i = drop (Suc i - w) (take (Suc i) xs)"

fun observations :: "fl list \<Rightarrow> real list" where
  "observations [] = []"
| "observations (Fin a # xs) = a # observations xs"
| "observations (_ # xs) = observations xs"

fun max_list :: "real list \<Rightarrow> real" where
  "max_list [] = 0"
| "max_list [a] = a"
| "max_list (a # b # xs) = max a (max_list (b # xs))"

definition rolling_mean :: "nat \<Rightarrow> fl list \<Rightarrow> fl list" where
  "rolling_mean w xs =
     map (\<lambda>i. let obs = observations (window_at w xs i)
               in if w \<le> length obs \<and> 0 < length obs
                  then Fin (sum_list obs / real (length obs)) else NaN)
         [0..<length xs]"

definition rolling_max :: "nat \<Rightarrow> fl list \<Rightarrow> fl list" where
  "rolling_max w xs =
     map (\<lambda>i. let obs = observations (window_at w xs i)
               in if w \<le> length obs \<and> 0 < length obs
                  then Fin (max_list obs) else NaN)
         [0..<length xs]"

text \<open>
  \<^verbatim>\<open>Series.shift(n)\<close>: the cells move \<open>n\<close> rows down (up for a negative \<open>n\<close>), the
  length is kept and the vacated rows hold NaN.
\<close>

definition shift :: "int \<Rightarrow> fl list \<Rightarrow> fl list" where
  "shift n xs =
     (if 0 \<le> n
      then replicate (min (nat n) (length xs)) NaN @ take (length xs - nat n) xs
      else drop (nat (- n)) xs @ replicate (min (nat (- n)) (length xs)) NaN)"

text \<open>Arithmetic of two columns on the same index, and of a column with a scalar.\<close>

definition series_sub :: "fl list \<Rightarrow> fl list \<Rightarrow> fl list" where
  "series_sub xs ys = map (\<lambda>(a, b). fl_sub a b) (zip xs ys)"

definition series_div :: "fl list \<Rightarrow> fl list \<Rightarrow> fl list" where
  "series_div xs ys = map (\<lambda>(a, b). fl_div a b) (zip xs ys)"

definition series_mul :: "fl list \<Rightarrow> fl \<Rightarrow> fl list" where
  "series_mul xs k = map (\<lambda>a. fl_mul a k) xs"

section \<open>calc_indicators\<close>

text \<open>
  DataFrames are objects: a variable holds a reference, and \<^verbatim>\<open>df[name] = ...\<close> changes the
  object every holder of the reference sees. The store maps references to frames.
\<close>

type_synonym ref = nat
type_synonym heap = "ref \<Rightarrow> frame"

definition df_assign :: "heap \<Rightarrow> ref \<Rightarrow> string \<Rightarrow> fl list \<Rightarrow> heap" where
  "df_assign h df name c = h(df := setitem (h df) name c)"

text \<open>The right-hand sides of the four assignments of \<^verbatim>\<open>calc_indicators\<close>.\<close>

definition close_rolling_mean :: "frame \<Rightarrow> int \<Rightarrow> py_error + fl list" where
  "close_rolling_mean f w =
     (case getitem f ''Close'' of Inl e \<Rightarrow> Inl e
      | Inr c \<Rightarrow> (case rolling w of Inl e \<Rightarrow> Inl e | Inr n \<Rightarrow> Inr (rolling_mean n c)))"

definition close_rolling_max :: "frame \<Rightarrow> int \<Rightarrow> py_error + fl list" where
  "close_rolling_max f w =
     (case getitem f ''Close'' of Inl e \<Rightarrow> Inl e
      | Inr c \<Rightarrow> (case rolling w of Inl e \<Rightarrow> Inl e | Inr n \<Rightarrow> Inr (rolling_max n c)))"

definition close_aroc :: "frame \<Rightarrow> int \<Rightarrow> py_error + fl list" where
  "close_aroc f w =
     (case getitem f ''Close'' of Inl e \<Rightarrow> Inl e
      | Inr c \<Rightarrow>
          Inr (series_mul (series_div (series_sub c (shift w c)) (shift w c)) (Fin 100)))"

text \<open>
  The body of the \<^verbatim>\<open>try\<close> block: the store as the block leaves it, and the exception that
  ended it, if any. The assignments made before an exception stay in the store.
\<close>

definition calc_body :: "heap \<Rightarrow> ref \<Rightarrow> int \<Rightarrow> int \<Rightarrow> int \<Rightarrow> heap \<times> py_error option" where
  "calc_body h df sma_short sma_long aroc_weeks =
     (case close_rolling_mean (h df) sma_short of Inl e \<Rightarrow> (h, Some e)
      | Inr c1 \<Rightarrow>
     let h1 = df_assign h df ''SMA_short'' c1 in
     (case close_rolling_mean (h1 df) sma_long of Inl e \<Rightarrow> (h1, Some e)
      | Inr c2 \<Rightarrow>
     let h2 = df_assign h1 df ''SMA_long'' c2;
         window = aroc_weeks * 5 in
     (case close_rolling_max (h2 df) window of Inl e \<Rightarrow> (h2, Some e)
      | Inr c3 \<Rightarrow>
     let h3 = df_assign h2 df ''20w_high'' c3 in
     (case close_aroc (h3 df) window of Inl e \<Rightarrow> (h3, Some e)
      | Inr c4 \<Rightarrow> (df_assign h3 df ''AROC'' c4, None)))))"

text \<open>
  \<^verbatim>\<open>calc_indicators\<close> returns \<^verbatim>\<open>df\<close>, the reference it was given, from the \<^verbatim>\<open>try\<close> block
  and from the handler alike (the handler's \<^verbatim>\<open>st.warning\<close> only displays a message).
\<close>

definition calc_indicators :: "heap \<Rightarrow> ref \<Rightarrow> int \<Rightarrow> int \<Rightarrow> int \<Rightarrow> ref \<times> heap" where
  "calc_indicators h df sma_short sma_long aroc_weeks =
     (case calc_body h df sma_short sma_long aroc_weeks of (h', _) \<Rightarrow> (df, h'))"

section \<open>analyze_ticker\<close>

text \<open>The dictionary \<^verbatim>\<open>analyze_ticker\<close> returns for a matching ticker.\<close>

record scan_result =
  Ticker :: string
  Date :: string
  Close :: fl
  SMA_short :: fl
  SMA_long :: fl
  high_20w :: fl
  AROC :: fl
  Entry_Recommendation :: fl
  Sell_Recommendation :: fl

text \<open>Sequencing of steps that may raise: the first exception ends the sequence.\<close>

definition bind_err :: "py_error + 'a \<Rightarrow> ('a \<Rightarrow> py_error + 'b) \<Rightarrow> py_error + 'b" where
  "bind_err m f = (case m of Inl e \<Rightarrow> Inl e | Inr x \<Rightarrow> f x)"

text \<open>
  The combined entry logic. Python's \<^verbatim>\<open>and\<close> stops at the first false operand, so a
  label is only looked up when every comparison before it was true.
\<close>

definition entry_signal :: "row \<Rightarrow> py_error + bool" where
  "entry_signal latest =
     bind_err (row_get latest ''Close'') (\<lambda>c.
     bind_err (row_get latest ''SMA_short'') (\<lambda>s.
     if \<not> fl_gt c s then Inr False else
     bind_err (row_get latest ''SMA_long'') (\<lambda>l.
     if \<not> fl_gt s l then Inr False else
     bind_err (row_get latest ''20w_high'') (\<lambda>hi.
     if \<not> fl_ge c (fl_mul (Fin 0.95) hi) then Inr False else
     bind_err (row_get latest ''AROC'') (\<lambda>a.
     Inr (fl_gt a (Fin 5)))))))"

text \<open>\<^verbatim>\<open>df.index[-1]\<close>, already formatted.\<close>

definition index_last :: "frame \<Rightarrow> py_error + string" where
  "index_last df = (if idx df = [] then Inl IndexError else Inr (last (idx df)))"

text \<open>The body of \<^verbatim>\<open>if entry_signal:\<close>, which builds the result.\<close>

definition entry_result :: "string \<Rightarrow> frame \<Rightarrow> row \<Rightarrow> py_error + scan_result" where
  "entry_result ticker df latest =
     bind_err (row_get latest ''Close'') (\<lambda>entry_price.
     bind_err (row_get latest ''SMA_short'') (\<lambda>sma_exit.
     let trailing_stop_exit = fl_mul entry_price (Fin 0.93);
         sell_recommendation = py_max sma_exit trailing_stop_exit in
     bind_err (index_last df) (\<lambda>d.
     bind_err (row_get latest ''SMA_long'') (\<lambda>l.
     bind_err (row_get latest ''20w_high'') (\<lambda>hi.
     bind_err (row_get latest ''AROC'') (\<lambda>a.
     Inr \<lparr>Ticker = ticker, Date = d, Close = entry_price, SMA_short = sma_exit,
          SMA_long = l, high_20w = hi, AROC = a,
          Entry_Recommendation = entry_price,
          Sell_Recommendation = sell_recommendation\<rparr>))))))"

text \<open>
  The \<^verbatim>\<open>try\<close> block of \<^verbatim>\<open>analyze_ticker\<close> with its handler and the final
  \<^verbatim>\<open>return None\<close>: every exception raised inside is caught and gives no result.
\<close>

definition analyze_latest :: "string \<Rightarrow> frame \<Rightarrow> row \<Rightarrow> scan_result option" where
  "analyze_latest ticker df latest =
     (case entry_signal latest of Inl e \<Rightarrow> None
      | Inr sig \<Rightarrow>
          if sig then (case entry_result ticker df latest of Inl e \<Rightarrow> None | Inr r \<Rightarrow> Some r)
          else None)"

text \<open>
  \<^verbatim>\<open>fetch_data\<close>: the download is the outside world, a function of the ticker and the
  number of weeks before now that may raise; its frames carry the first level of the
  column labels. Each call is recorded in a log, the only effect kept of a run.
\<close>

type_synonym download = "string \<Rightarrow> int \<Rightarrow> py_error + frame"
type_synonym fetch_log = "(string \<times> int) list"

definition fetch_data :: "fetch_log \<Rightarrow> download \<Rightarrow> string \<Rightarrow> int \<Rightarrow> fetch_log \<times> frame option" where
  "fetch_data w yf ticker weeks =
     (w @ [(ticker, weeks)],
      case yf ticker weeks of Inl e \<Rightarrow> None | Inr df \<Rightarrow> Some df)"

text \<open>A store holding the freshly fetched frame at reference 0.\<close>

definition new_heap :: "frame \<Rightarrow> heap" where
  "new_heap fetched = (\<lambda>_. \<lparr>idx = [], cols = []\<rparr>)(0 := fetched)"

definition analyze_ticker ::
  "fetch_log \<Rightarrow> download \<Rightarrow> string \<Rightarrow> int \<Rightarrow> int \<Rightarrow> int
     \<Rightarrow> fetch_log \<times> (py_error + scan_result option)" where
  "analyze_ticker w yf ticker sma_short sma_long aroc_weeks =
     (case fetch_data w yf ticker (aroc_weeks + 10) of (w', fetched) \<Rightarrow>
       (case fetched of None \<Rightarrow> (w', Inr None)
        | Some f \<Rightarrow>
            if df_empty f then (w', Inr None)
            else (case calc_indicators (new_heap f) 0 sma_short sma_long aroc_weeks of
                    (df, h) \<Rightarrow>
                      (case iloc_last (h df) of Inl e \<Rightarrow> (w', Inl e)
                       | Inr latest \<Rightarrow> (w', Inr (analyze_latest ticker (h df) latest))))))"

section \<open>get_all_tickers and main\<close>

text \<open>
  \<^verbatim>\<open>list(set(sp500 + nasdaq100))\<close> keeps one copy of each symbol, \<^verbatim>\<open>sort\<close> orders them
  as Python orders strings, by code point.
\<close>

definition get_all_tickers :: "string list \<Rightarrow> string list \<Rightarrow> string list" where
  "get_all_tickers sp500 nasdaq100 = sort (remdups (sp500 @ nasdaq100))"

text \<open>
  The loop of \<^verbatim>\<open>main\<close> over \<^verbatim>\<open>to_scan\<close>, with the results collected so far. An exception
  that escapes \<^verbatim>\<open>analyze_ticker\<close> ends the loop.
\<close>

fun scan_loop ::
  "fetch_log \<Rightarrow> download \<Rightarrow> string list \<Rightarrow> int \<Rightarrow> int \<Rightarrow> int \<Rightarrow> scan_result list
     \<Rightarrow> fetch_log \<times> (py_error + scan_result list)" where
  "scan_loop w yf [] sma_short sma_long aroc_weeks results = (w, Inr results)"
| "scan_loop w yf (ticker # to_scan) sma_short sma_long aroc_weeks results =
     (case analyze_ticker w yf ticker sma_short sma_long aroc_weeks of
        (w', Inl e) \<Rightarrow> (w', Inl e)
      | (w', Inr None) \<Rightarrow> scan_loop w' yf to_scan sma_short sma_long aroc_weeks results
      | (w', Inr (Some result)) \<Rightarrow>
          scan_loop w' yf to_scan sma_short sma_long aroc_weeks (results @ [result]))"

datatype outcome = Stopped | Idle | Scanned "scan_result list" | Raised py_error

text \<open>
  \<^verbatim>\<open>main\<close>, from the two ticker lists the sources gave (empty when a source failed), the
  sidebar's inputs and the download.
\<close>

definition main ::
  "fetch_log \<Rightarrow> string list \<Rightarrow> string list \<Rightarrow> download \<Rightarrow> string list \<Rightarrow> int \<Rightarrow> int \<Rightarrow> int
     \<Rightarrow> bool \<Rightarrow> fetch_log \<times> outcome" where
  "main w sp500 nasdaq100 yf selected_tickers sma_short sma_long aroc_weeks run_scan =
     (let tickers = get_all_tickers sp500 nasdaq100 in
      if tickers = [] then (w, Stopped)
      else if run_scan then
        (let to_scan = (if selected_tickers \<noteq> [] then selected_tickers else tickers) in
         case scan_loop w yf to_scan sma_short sma_long aroc_weeks [] of
           (w', Inl e) \<Rightarrow> (w', Raised e)
         | (w', Inr results) \<Rightarrow> (w', Scanned results))
      else (w, Idle))"

section \<open>What one ticker contributes to a scan\<close>

text \<open>
  The result \<^verbatim>\<open>analyze_ticker\<close> gives for one ticker, as the list the loop appends to
  \<^verbatim>\<open>results\<close>: one result, or nothing.
\<close>

definition ticker_result :: "download \<Rightarrow> int \<Rightarrow> int \<Rightarrow> int \<Rightarrow> string \<Rightarrow> scan_result list" where
  "ticker_result yf sma_short sma_long aroc_weeks ticker =
     (case snd (analyze_ticker [] yf ticker sma_short sma_long aroc_weeks) of
        Inr (Some r) \<Rightarrow> [r] | _ \<Rightarrow> [])"

text \<open>A ticker whose download raised, or whose downloaded frame is empty.\<close>

definition fetch_failed_or_empty :: "download \<Rightarrow> int \<Rightarrow> string \<Rightarrow> bool" where
  "fetch_failed_or_empty yf aroc_weeks ticker =
     (case yf ticker (aroc_weeks + 10) of Inl e \<Rightarrow> True | Inr f \<Rightarrow> df_empty f)"

section \<open>Example data\<close>

text \<open>
  Six daily bars with Close rising from 10 to 15, as a fetched frame would hold them; with
  windows 2 and 3 and one week of look-back the entry signal fires on the last bar.
\<close>

definition example_close :: "fl list" where
  "example_close = map (\<lambda>k. Fin (real (k + 10))) [0..<6]"

definition example_frame :: frame where
  "example_frame =
     \<lparr>idx = [''2024-01-02'', ''2024-01-03'', ''2024-01-04'', ''2024-01-05'', ''2024-01-08'',
             ''2024-01-09''],
      cols = [(''Close'', example_close)]\<rparr>"

text \<open>A frame without a Close column, as a malformed download would give.\<close>

definition malformed_frame :: frame where
  "malformed_frame = \<lparr>idx = [''2024-01-09''], cols = [(''Open'', [Fin 10])]\<rparr>"



section \<open>Frames and rolling windows\<close>

lemma getitem_setitem:
  "getitem (setitem f n c) m = (if m = n then Inr c else getitem f m)"
  by (simp add: getitem_def setitem_def update_conv')

lemma idx_setitem: "idx (setitem f n c) = idx f"
  by (simp add: setitem_def)

lemma length_observations_le: "length (observations ws) \<le> length ws"
  by (induction ws rule: observations.induct) auto

lemma observations_map_Fin: "observations (map Fin rs) = rs"
  by (induction rs) auto

lemma observations_full_iff:
  "length (observations ws) = length ws \<longleftrightarrow> (\<forall>x\<in>set ws. \<exists>r. x = Fin r)"
proof (induction ws)
  case Nil
  then show ?case by simp
next
  case (Cons x ws)
  have le: "length (observations ws) \<le> length ws" by (rule length_observations_le)
  show ?case using Cons le by (cases x) auto
qed

lemma length_window_at:
  "i < length xs \<Longrightarrow> length (window_at w xs i) = min w (Suc i)"
  by (auto simp: window_at_def)

lemma window_at_nth:
  "i < length xs \<Longrightarrow> w \<le> Suc i \<Longrightarrow> window_at w xs i = map (\<lambda>k. xs ! k) [Suc i - w..<Suc i]"
  unfolding window_at_def
  by (rule nth_equalityI) (auto simp del: upt_Suc)

lemma set_window_at:
  "i < length xs \<Longrightarrow> w \<le> Suc i \<Longrightarrow> set (window_at w xs i) = (\<lambda>k. xs ! k) ` {Suc i - w..i}"
  by (simp add: window_at_nth atLeastLessThanSuc_atLeastAtMost del: upt_Suc)


lemma length_rolling_max: "length (rolling_max w xs) = length xs"
  by (simp add: rolling_max_def)

lemma rolling_short:
  assumes "i < length xs" "Suc i < w"
  shows "rolling_mean w xs ! i = NaN" "rolling_max w xs ! i = NaN"
proof -
  have "length (observations (window_at w xs i)) \<le> Suc i"
    using length_observations_le[of "window_at w xs i"] length_window_at[OF assms(1), of w] by simp
  then have "\<not> w \<le> length (observations (window_at w xs i))" using assms(2) by simp
  then show "rolling_mean w xs ! i = NaN" "rolling_max w xs ! i = NaN"
    using assms(1) by (simp_all add: rolling_mean_def rolling_max_def Let_def)
qed

lemma window_all_fin:
  assumes "i < length xs" "w \<le> Suc i" "\<forall>k\<in>{Suc i - w..i}. xs ! k = Fin (v k)"
  shows "observations (window_at w xs i) = map v [Suc i - w..<Suc i]"
proof -
  have "window_at w xs i = map Fin (map v [Suc i - w..<Suc i])"
    using assms by (simp add: window_at_nth atLeastLessThanSuc_atLeastAtMost del: upt_Suc)
  then show ?thesis by (simp only: observations_map_Fin)
qed


lemma rolling_NaN_iff:
  assumes "i < length xs" "w \<le> Suc i"
  shows "rolling_mean w xs ! i = NaN \<longleftrightarrow> w = 0 \<or> (\<exists>k\<in>{Suc i - w..i}. \<forall>r. xs ! k \<noteq> Fin r)"
    and "rolling_max w xs ! i = NaN \<longleftrightarrow> w = 0 \<or> (\<exists>k\<in>{Suc i - w..i}. \<forall>r. xs ! k \<noteq> Fin r)"
proof -
  let ?ws = "window_at w xs i"
  have lw: "length ?ws = w" using assms by (simp add: length_window_at)
  have le: "length (observations ?ws) \<le> w" using length_observations_le[of ?ws] lw by simp
  have full: "(length (observations ?ws) = w) = (\<forall>k\<in>{Suc i - w..i}. \<exists>r. xs ! k = Fin r)"
    using observations_full_iff[of ?ws] lw set_window_at[OF assms] by auto
  have c: "(w \<le> length (observations ?ws) \<and> 0 < length (observations ?ws))
        = (0 < w \<and> (\<forall>k\<in>{Suc i - w..i}. \<exists>r. xs ! k = Fin r))"
  proof (cases "w = 0")
    case True
    then show ?thesis using le by simp
  next
    case False
    then show ?thesis using le full by auto
  qed
  show "rolling_mean w xs ! i = NaN \<longleftrightarrow> w = 0 \<or> (\<exists>k\<in>{Suc i - w..i}. \<forall>r. xs ! k \<noteq> Fin r)"
    using assms(1) c by (auto simp add: rolling_mean_def Let_def simp del: upt_Suc)
  show "rolling_max w xs ! i = NaN \<longleftrightarrow> w = 0 \<or> (\<exists>k\<in>{Suc i - w..i}. \<forall>r. xs ! k \<noteq> Fin r)"
    using assms(1) c by (auto simp add: rolling_max_def Let_def simp del: upt_Suc)
qed

lemma max_list_Max: "xs \<noteq> [] \<Longrightarrow> max_list xs = Max (set xs)"
  by (induction xs rule: max_list.induct) (auto simp: max.commute)

lemma rolling_max_full:
  assumes "i < length xs" "w \<le> Suc i" "0 < w" "\<forall>k\<in>{Suc i - w..i}. xs ! k = Fin (v k)"
  shows "rolling_max w xs ! i = Fin (Max (v ` {Suc i - w..i}))"
proof -
  have obs: "observations (window_at w xs i) = map v [Suc i - w..<Suc i]"
    using assms by (intro window_all_fin) auto
  have len: "length (map v [Suc i - w..<Suc i]) = w" using assms by simp
  have ne: "map v [Suc i - w..<Suc i] \<noteq> []" using len assms(3) by auto
  have s: "max_list (map v [Suc i - w..<Suc i]) = Max (v ` {Suc i - w..i})"
    using max_list_Max[OF ne] by (simp add: atLeastLessThanSuc_atLeastAtMost del: upt_Suc)
  have "rolling_max w xs ! i =
      (let obs = observations (window_at w xs i)
       in if w \<le> length obs \<and> 0 < length obs
          then Fin (max_list obs) else NaN)"
    using assms(1) by (simp add: rolling_max_def del: upt_Suc)
  also have "\<dots> = Fin (Max (v ` {Suc i - w..i}))"
    unfolding obs Let_def s len using assms(3) by simp
  finally show ?thesis .
qed

lemma close_rolling_mean_eq:
  "getitem f ''Close'' = Inr c \<Longrightarrow>
   close_rolling_mean f w = (if w < 0 then Inl ValueError else Inr (rolling_mean (nat w) c))"
  by (simp add: close_rolling_mean_def rolling_def)

lemma close_rolling_max_eq:
  "getitem f ''Close'' = Inr c \<Longrightarrow>
   close_rolling_max f w = (if w < 0 then Inl ValueError else Inr (rolling_max (nat w) c))"
  by (simp add: close_rolling_max_def rolling_def)

lemma getitem_Close_setitem:
  "n \<noteq> ''Close'' \<Longrightarrow> getitem (setitem f n c) ''Close'' = getitem f ''Close''"
  by (simp add: getitem_setitem)

lemma calc_body_no_close:
  "getitem (h df) ''Close'' = Inl e \<Longrightarrow> calc_body h df s l a = (h, Some e)"
  by (simp add: calc_body_def close_rolling_mean_def)

lemma calc_body_close:
  assumes "getitem (h df) ''Close'' = Inr c"
  shows "calc_body h df s l a =
    (let f1 = setitem (h df) ''SMA_short'' (rolling_mean (nat s) c);
         f2 = setitem f1 ''SMA_long'' (rolling_mean (nat l) c);
         f3 = setitem f2 ''20w_high'' (rolling_max (nat (a * 5)) c);
         f4 = setitem f3 ''AROC''
                (series_mul (series_div (series_sub c (shift (a * 5) c)) (shift (a * 5) c)) (Fin 100))
     in if s < 0 then (h, Some ValueError)
        else if l < 0 then (h(df := f1), Some ValueError)
        else if a * 5 < 0 then (h(df := f2), Some ValueError)
        else (h(df := f4), None))"
proof -
  have c1: "getitem (setitem (h df) ''SMA_short'' x) ''Close'' = Inr c" for x
    using assms by (simp add: getitem_setitem)
  have c2: "getitem (setitem (setitem (h df) ''SMA_short'' x) ''SMA_long'' y) ''Close'' = Inr c"
    for x y using assms by (simp add: getitem_setitem)
  have c3: "getitem (setitem (setitem (setitem (h df) ''SMA_short'' x) ''SMA_long'' y)
              ''20w_high'' z) ''Close'' = Inr c"
    for x y z using assms by (simp add: getitem_setitem)
  show ?thesis
    unfolding calc_body_def Let_def
    by (simp add: close_rolling_mean_eq[OF assms] close_rolling_mean_eq[OF c1]
        close_rolling_max_eq[OF c2] close_aroc_def c3 df_assign_def)
qed







lemma calc_indicators_close:
  assumes "getitem (h df) ''Close'' = Inr c" "0 \<le> s" "0 \<le> l"
    and "calc_indicators h df s l a = (df', h')"
  shows "df' = df"
    and "getitem (h' df) ''SMA_short'' = Inr (rolling_mean (nat s) c)"
    and "getitem (h' df) ''SMA_long'' = Inr (rolling_mean (nat l) c)"
    and "0 \<le> a \<Longrightarrow> getitem (h' df) ''20w_high'' = Inr (rolling_max (nat (a * 5)) c)"
    and "0 \<le> a \<Longrightarrow> getitem (h' df) ''AROC'' =
           Inr (series_mul (series_div (series_sub c (shift (a * 5) c)) (shift (a * 5) c)) (Fin 100))"
  using assms(2-)
  by (auto simp: calc_indicators_def calc_body_close[of h df c, OF assms(1)] Let_def getitem_setitem
      split: if_splits)

section \<open>The moving averages\<close>



section \<open>The rolling high\<close>

text \<open>
  C5. With non-negative parameters and a Close column, the rolling high that
  \<^verbatim>\<open>calc_indicators\<close> leaves in the frame is, at row \<open>i\<close>, undefined (NaN) while fewer than
  \<open>aroc_weeks * 5\<close> bars exist (\<open>i < aroc_weeks * 5 - 1\<close>), and from then on the maximum of
  Close over the \<open>aroc_weeks * 5\<close> rows ending at and including \<open>i\<close>, whenever those cells
  are numbers; it is NaN exactly when the window is empty or one of those cells is missing.
\<close>

theorem rolling_high_trailing_max:
  assumes "getitem (h df) ''Close'' = Inr close"
    and "0 \<le> sma_short" and "0 \<le> sma_long" and "0 \<le> aroc_weeks"
    and "calc_indicators h df sma_short sma_long aroc_weeks = (df', h')"
    and "w = nat (aroc_weeks * 5)"
  shows "\<exists>high. getitem (h' df') ''20w_high'' = Inr high \<and> length high = length close \<and>
     (\<forall>i<length close.
        (i + 1 < w \<longrightarrow> high ! i = NaN) \<and>
        (w \<le> i + 1 \<and> 0 < w \<and> (\<forall>k\<in>{i + 1 - w..i}. close ! k = Fin (v k)) \<longrightarrow>
           high ! i = Fin (Max (v ` {i + 1 - w..i}))) \<and>
        (w \<le> i + 1 \<longrightarrow>
           (high ! i = NaN) = (w = 0 \<or> (\<exists>k\<in>{i + 1 - w..i}. \<forall>x. close ! k \<noteq> Fin x))))"
proof -
  have col: "getitem (h' df') ''20w_high'' = Inr (rolling_max w close)"
    using assms(6) calc_indicators_close(1)[OF assms(1-3,5)] calc_indicators_close(4)[OF assms(1-3,5) assms(4)] by simp
  have "\<forall>i<length close.
        (i + 1 < w \<longrightarrow> rolling_max w close ! i = NaN) \<and>
        (w \<le> i + 1 \<and> 0 < w \<and> (\<forall>k\<in>{i + 1 - w..i}. close ! k = Fin (v k)) \<longrightarrow>
           rolling_max w close ! i = Fin (Max (v ` {i + 1 - w..i}))) \<and>
        (w \<le> i + 1 \<longrightarrow>
           (rolling_max w close ! i = NaN)
             = (w = 0 \<or> (\<exists>k\<in>{i + 1 - w..i}. \<forall>x. close ! k \<noteq> Fin x)))"
    using rolling_short(2)[of _ close w] rolling_max_full[of _ close w v]
      rolling_NaN_iff(2)[of _ close w]
    by simp
  then show ?thesis using col by (simp add: length_rolling_max)
qed

theorem rolling_high_trailing_max_witness:
  "getitem (new_heap example_frame 0) ''Close'' = Inr example_close
   \<and> (0::int) \<le> 2 \<and> (0::int) \<le> 3 \<and> (0::int) \<le> 1
   \<and> (\<exists>high. getitem (snd (calc_indicators (new_heap example_frame) 0 2 3 1) 0) ''20w_high''
                = Inr high
         \<and> high ! 3 = NaN \<and> high ! 5 = Fin (Max ((\<lambda>k. real (k + 10)) ` {1..5})))"
proof -
  let ?h = "new_heap example_frame"
  have g: "getitem (?h 0) ''Close'' = Inr example_close"
    by (simp add: new_heap_def getitem_def example_frame_def)
  have c: "calc_indicators ?h 0 2 3 1 = (0, snd (calc_indicators ?h 0 2 3 1))"
    by (simp add: calc_indicators_def split: prod.splits)
  have w: "(5::nat) = nat (1 * 5)" by simp
  have k: "\<forall>k\<in>{5 + 1 - 5..5::nat}. example_close ! k = Fin (real (k + 10))"
    by (auto simp: example_close_def simp del: upt_Suc)
  from rolling_high_trailing_max[OF g _ _ _ c w, of "\<lambda>k. real (k + 10)"]
  obtain high where s: "getitem (snd (calc_indicators ?h 0 2 3 1) 0) ''20w_high'' = Inr high"
    and a: "\<forall>i<length example_close.
        (i + 1 < 5 \<longrightarrow> high ! i = NaN) \<and>
        (5 \<le> i + 1 \<and> 0 < (5::nat) \<and> (\<forall>k\<in>{i + 1 - 5..i}. example_close ! k = Fin (real (k + 10)))
           \<longrightarrow> high ! i = Fin (Max ((\<lambda>k. real (k + 10)) ` {i + 1 - 5..i})))"
    by auto
  have n: "length example_close = 6" by (simp add: example_close_def)
  have "high ! 3 = NaN" using a[rule_format, of 3] n by simp
  moreover have "high ! 5 = Fin (Max ((\<lambda>k. real (k + 10)) ` {1..5}))"
    using a[rule_format, of 5] k n by simp
  ultimately show ?thesis using g s by simp
qed

section \<open>The rate of change\<close>



section \<open>The latest bar and the evaluation\<close>

lemma row_get_iloc_last:
  assumes "iloc_last f = Inr latest"
  shows "row_get latest name =
    (case getitem f name of Inl e \<Rightarrow> Inl KeyError | Inr c \<Rightarrow> Inr (cell c (length (idx f) - 1)))"
proof -
  have l: "latest = map (\<lambda>(n, c). (n, cell c (length (idx f) - 1))) (cols f)"
    using assms by (simp add: iloc_last_def split: if_splits)
  show ?thesis
    unfolding l row_get_def getitem_def map_of_map
    by (cases "map_of (cols f) name") simp_all
qed


lemma iloc_last_ok: "idx f \<noteq> [] \<Longrightarrow> \<exists>latest. iloc_last f = Inr latest"
  by (simp add: iloc_last_def)

lemma analyze_latest_Some_iff:
  "analyze_latest ticker f latest = Some r \<longleftrightarrow>
     (\<exists>c s l hi a d.
        row_get latest ''Close'' = Inr c \<and> row_get latest ''SMA_short'' = Inr s \<and>
        row_get latest ''SMA_long'' = Inr l \<and> row_get latest ''20w_high'' = Inr hi \<and>
        row_get latest ''AROC'' = Inr a \<and> index_last f = Inr d \<and>
        fl_gt c s \<and> fl_gt s l \<and> fl_ge c (fl_mul (Fin 0.95) hi) \<and> fl_gt a (Fin 5) \<and>
        r = \<lparr>Ticker = ticker, Date = d, Close = c, SMA_short = s, SMA_long = l, high_20w = hi,
             AROC = a, Entry_Recommendation = c,
             Sell_Recommendation = py_max s (fl_mul c (Fin 0.93))\<rparr>)"
  unfolding analyze_latest_def entry_signal_def entry_result_def bind_err_def Let_def
  by (auto split: sum.splits if_splits)

lemma analyze_latest_None:
  assumes "row_get latest name = Inl e"
    and "name \<in> {''Close'', ''SMA_short'', ''SMA_long'', ''20w_high'', ''AROC''}"
  shows "analyze_latest ticker f latest = None"
proof (cases "analyze_latest ticker f latest")
  case None
  then show ?thesis .
next
  case (Some r)
  then show ?thesis using assms unfolding analyze_latest_Some_iff by auto
qed

lemma calc_indicators_fst: "fst (calc_indicators h df s l a) = df"
  by (simp add: calc_indicators_def split: prod.splits)

lemma calc_body_frame:
  assumes "calc_body h df s l a = (h', err)"
  shows "(\<forall>r. r \<noteq> df \<longrightarrow> h' r = h r) \<and> idx (h' df) = idx (h df) \<and>
    (\<forall>name. name \<notin> {''SMA_short'', ''SMA_long'', ''20w_high'', ''AROC''} \<longrightarrow>
        getitem (h' df) name = getitem (h df) name)"
proof (cases "getitem (h df) ''Close''")
  case (Inl e)
  then show ?thesis using assms by (simp add: calc_body_no_close)
next
  case (Inr c)
  show ?thesis
    using assms unfolding calc_body_close[of h df c, OF Inr] Let_def
    by (auto simp: getitem_setitem idx_setitem split: if_splits)
qed

lemma calc_body_error:
  assumes "calc_body h df s l a = (h', Some e)"
  shows "getitem (h' df) ''20w_high'' = getitem (h df) ''20w_high''"
    and "getitem (h' df) ''AROC'' = getitem (h df) ''AROC''"
    and "0 \<le> s \<Longrightarrow> 0 \<le> l \<Longrightarrow> 0 \<le> a \<Longrightarrow> h' = h \<and> getitem (h df) ''Close'' = Inl KeyError"
proof -
  show "getitem (h' df) ''20w_high'' = getitem (h df) ''20w_high''"
  proof (cases "getitem (h df) ''Close''")
    case (Inl e)
    then show ?thesis using assms by (simp add: calc_body_no_close)
  next
    case (Inr c)
    show ?thesis
      using assms unfolding calc_body_close[of h df c, OF Inr] Let_def
      by (auto simp: getitem_setitem split: if_splits)
  qed
  show "getitem (h' df) ''AROC'' = getitem (h df) ''AROC''"
  proof (cases "getitem (h df) ''Close''")
    case (Inl e)
    then show ?thesis using assms by (simp add: calc_body_no_close)
  next
    case (Inr c)
    show ?thesis
      using assms unfolding calc_body_close[of h df c, OF Inr] Let_def
      by (auto simp: getitem_setitem split: if_splits)
  qed
  show "h' = h \<and> getitem (h df) ''Close'' = Inl KeyError" if "0 \<le> s" "0 \<le> l" "0 \<le> a"
  proof (cases "getitem (h df) ''Close''")
    case (Inl e')
    then have "e' = KeyError" by (auto simp: getitem_def split: option.splits)
    then show ?thesis using assms Inl by (simp add: calc_body_no_close)
  next
    case (Inr c)
    show ?thesis
      using assms that unfolding calc_body_close[of h df c, OF Inr] Let_def
      by (auto split: if_splits)
  qed
qed

lemma analyze_ticker_fetched:
  assumes "yf ticker (a + 10) = Inr f"
  shows "analyze_ticker w yf ticker s l a =
    (w @ [(ticker, a + 10)],
     if df_empty f then Inr None
     else (case iloc_last (snd (calc_indicators (new_heap f) 0 s l a) 0) of
             Inl e \<Rightarrow> Inl e
           | Inr latest \<Rightarrow>
               Inr (analyze_latest ticker (snd (calc_indicators (new_heap f) 0 s l a) 0) latest)))"
  using assms
  by (auto simp: analyze_ticker_def fetch_data_def calc_indicators_def
      split: prod.splits sum.splits)

lemma analyze_ticker_failed:
  assumes "yf ticker (a + 10) = Inl e"
  shows "analyze_ticker w yf ticker s l a = (w @ [(ticker, a + 10)], Inr None)"
  using assms by (simp add: analyze_ticker_def fetch_data_def)


lemma fl_le_NaN_right: "fl_le x NaN = False"
  by (cases x) auto









section \<open>Effect of calc_indicators on the caller's frame\<close>




section \<open>Computation errors\<close>

text \<open>
  C8. \<^verbatim>\<open>calc_indicators\<close> returns the frame whatever happens in its \<^verbatim>\<open>try\<close> block. When
  the block ends with an exception on a fetched frame (one without derived columns), the
  rolling high and the AROC are absent from the returned frame; with non-negative window
  parameters the only possible error is a missing Close column, and the frame is returned
  as it was, with none of the four derived columns. In every such case the evaluation of the
  latest bar gives no result, and \<^verbatim>\<open>analyze_ticker\<close> returns None without raising.
\<close>

theorem calc_error_degrades:
  assumes "calc_body h df sma_short sma_long aroc_weeks = (h', Some e)"
    and "\<forall>name\<in>{''SMA_short'', ''SMA_long'', ''20w_high'', ''AROC''}.
           getitem (h df) name = Inl KeyError"
  shows "calc_indicators h df sma_short sma_long aroc_weeks = (df, h') \<and>
     getitem (h' df) ''20w_high'' = Inl KeyError \<and> getitem (h' df) ''AROC'' = Inl KeyError \<and>
     (0 \<le> sma_short \<and> 0 \<le> sma_long \<and> 0 \<le> aroc_weeks \<longrightarrow>
        h' = h \<and> getitem (h df) ''Close'' = Inl KeyError) \<and>
     (\<forall>latest. iloc_last (h' df) = Inr latest \<longrightarrow>
        analyze_latest ticker (h' df) latest = None) \<and>
     (\<forall>f. yf ticker (aroc_weeks + 10) = Inr f \<and> h = new_heap f \<and> df = 0 \<longrightarrow>
        snd (analyze_ticker w yf ticker sma_short sma_long aroc_weeks) = Inr None)"
proof -
  have ci: "calc_indicators h df sma_short sma_long aroc_weeks = (df, h')"
    using assms(1) by (simp add: calc_indicators_def)
  have hi: "getitem (h' df) ''20w_high'' = Inl KeyError"
    and ar: "getitem (h' df) ''AROC'' = Inl KeyError"
    using calc_body_error(1,2)[OF assms(1)] assms(2) by simp_all
  have un: "0 \<le> sma_short \<and> 0 \<le> sma_long \<and> 0 \<le> aroc_weeks \<longrightarrow>
        h' = h \<and> getitem (h df) ''Close'' = Inl KeyError"
    using calc_body_error(3)[OF assms(1)] by blast
  have dec: "analyze_latest ticker (h' df) latest = None" if "iloc_last (h' df) = Inr latest"
    for latest
  proof -
    have "row_get latest ''AROC'' = Inl KeyError"
      using row_get_iloc_last[OF that, of "''AROC''"] ar by simp
    then show ?thesis by (rule analyze_latest_None) simp
  qed
  have pipe: "snd (analyze_ticker w yf ticker sma_short sma_long aroc_weeks) = Inr None"
    if "yf ticker (aroc_weeks + 10) = Inr f \<and> h = new_heap f \<and> df = 0" for f
  proof (cases "df_empty f")
    case True
    then show ?thesis using that by (simp add: analyze_ticker_fetched)
  next
    case False
    have s: "snd (calc_indicators (new_heap f) 0 sma_short sma_long aroc_weeks) = h'"
      using ci that by simp
    have "idx (h' 0) = idx f"
      using calc_body_frame[OF assms(1)] that by (simp add: new_heap_def)
    then have "idx (h' 0) \<noteq> []" using False by (simp add: df_empty_def)
    then obtain latest where la: "iloc_last (h' 0) = Inr latest"
      using iloc_last_ok by blast
    have "analyze_latest ticker (h' 0) latest = None" using dec[of latest] la that by simp
    then show ?thesis using that False la by (simp add: analyze_ticker_fetched s)
  qed
  show ?thesis using ci hi ar un dec pipe by blast
qed

theorem calc_error_degrades_witness:
  "calc_body (new_heap malformed_frame) 0 2 3 1 = (new_heap malformed_frame, Some KeyError) \<and>
   getitem (new_heap malformed_frame 0) ''SMA_short'' = Inl KeyError \<and>
   getitem (new_heap malformed_frame 0) ''SMA_long'' = Inl KeyError \<and>
   getitem (new_heap malformed_frame 0) ''20w_high'' = Inl KeyError \<and>
   getitem (new_heap malformed_frame 0) ''AROC'' = Inl KeyError \<and>
   calc_indicators (new_heap malformed_frame) 0 2 3 1 = (0, new_heap malformed_frame) \<and>
   snd (analyze_ticker [] (\<lambda>t n. Inr malformed_frame) ''XYZ'' 2 3 1) = Inr None"
proof -
  let ?h = "new_heap malformed_frame"
  have b: "calc_body ?h 0 2 3 1 = (?h, Some KeyError)"
    by (simp add: calc_body_def close_rolling_mean_def getitem_def new_heap_def
        malformed_frame_def)
  have n: "\<forall>name\<in>{''SMA_short'', ''SMA_long'', ''20w_high'', ''AROC''}.
       getitem (?h 0) name = Inl KeyError"
    by (simp add: getitem_def new_heap_def malformed_frame_def)
  show ?thesis
    using calc_error_degrades[OF b n, where yf = "\<lambda>t n. Inr malformed_frame"
        and ticker = "''XYZ''" and w = "[]"] b n
    by simp
qed

section \<open>The entry condition\<close>



section \<open>Entry and sell recommendation\<close>



section \<open>The whole analysis of one ticker\<close>

lemma calc_indicators_frame:
  assumes "calc_indicators h df s l a = (df', h')"
  shows "df' = df" "idx (h' df) = idx (h df)"
    "name \<notin> {''SMA_short'', ''SMA_long'', ''20w_high'', ''AROC''} \<Longrightarrow>
       getitem (h' df) name = getitem (h df) name"
proof -
  obtain err where b: "calc_body h df s l a = (h', err)" and d: "df' = df"
    using assms by (auto simp: calc_indicators_def split: prod.splits)
  show "df' = df" by (rule d)
  show "idx (h' df) = idx (h df)" using calc_body_frame[OF b] by blast
  show "getitem (h' df) name = getitem (h df) name"
    if "name \<notin> {''SMA_short'', ''SMA_long'', ''20w_high'', ''AROC''}"
    using calc_body_frame[OF b] that by blast
qed



lemma analyze_ticker_Some:
  assumes "analyze_ticker w yf ticker s l a = (w', Inr (Some r))"
  shows "\<exists>f latest. yf ticker (a + 10) = Inr f \<and> \<not> df_empty f \<and>
     iloc_last (snd (calc_indicators (new_heap f) 0 s l a) 0) = Inr latest \<and>
     analyze_latest ticker (snd (calc_indicators (new_heap f) 0 s l a) 0) latest = Some r"
proof (cases "yf ticker (a + 10)")
  case (Inl e)
  then show ?thesis using assms by (simp add: analyze_ticker_failed)
next
  case (Inr f)
  then show ?thesis using assms
    by (auto simp: analyze_ticker_fetched split: if_splits sum.splits)
qed







section \<open>Bounds of the sell recommendation\<close>



section \<open>The scan loop\<close>

lemma analyze_ticker_total:
  "\<exists>res. analyze_ticker w yf t s l a = (w @ [(t, a + 10)], Inr res)"
proof (cases "yf t (a + 10)")
  case (Inl e)
  then show ?thesis by (simp add: analyze_ticker_failed)
next
  case (Inr f)
  show ?thesis
  proof (cases "df_empty f")
    case True
    then show ?thesis using Inr by (simp add: analyze_ticker_fetched)
  next
    case False
    let ?h' = "snd (calc_indicators (new_heap f) 0 s l a)"
    have ci: "calc_indicators (new_heap f) 0 s l a = (0, ?h')"
      using calc_indicators_fst[of "new_heap f" 0 s l a] by (simp add: prod_eq_iff)
    have "idx (?h' 0) = idx f" using calc_indicators_frame(2)[OF ci] by (simp add: new_heap_def)
    then have "idx (?h' 0) \<noteq> []" using False by (simp add: df_empty_def)
    then obtain latest where "iloc_last (?h' 0) = Inr latest" using iloc_last_ok by blast
    then show ?thesis using Inr False by (simp add: analyze_ticker_fetched)
  qed
qed

lemma analyze_ticker_log:
  "analyze_ticker w yf t s l a = (w @ [(t, a + 10)], snd (analyze_ticker [] yf t s l a))"
  by (cases "yf t (a + 10)") (simp_all add: analyze_ticker_failed analyze_ticker_fetched)

lemma analyze_ticker_step:
  "(\<exists>r. analyze_ticker w yf t s l a = (w @ [(t, a + 10)], Inr (Some r)) \<and>
        ticker_result yf s l a t = [r]) \<or>
   (analyze_ticker w yf t s l a = (w @ [(t, a + 10)], Inr None) \<and> ticker_result yf s l a t = [])"
proof -
  obtain res where r: "analyze_ticker [] yf t s l a = ([] @ [(t, a + 10)], Inr res)"
    using analyze_ticker_total by blast
  have "analyze_ticker w yf t s l a = (w @ [(t, a + 10)], Inr res)"
    using analyze_ticker_log[of w yf t s l a] r by simp
  then show ?thesis using r by (cases res) (simp_all add: ticker_result_def)
qed

lemma scan_loop_eq:
  "scan_loop w yf ts s l a acc =
     (w @ map (\<lambda>t. (t, a + 10)) ts, Inr (acc @ concat (map (ticker_result yf s l a) ts)))"
proof (induction ts arbitrary: w acc)
  case Nil
  then show ?case by simp
next
  case (Cons t ts)
  from analyze_ticker_step[of w yf t s l a] show ?case
  proof
    assume "\<exists>r. analyze_ticker w yf t s l a = (w @ [(t, a + 10)], Inr (Some r)) \<and>
        ticker_result yf s l a t = [r]"
    then show ?thesis using Cons.IH by auto
  next
    assume "analyze_ticker w yf t s l a = (w @ [(t, a + 10)], Inr None) \<and>
        ticker_result yf s l a t = []"
    then show ?thesis using Cons.IH by auto
  qed
qed

lemma ticker_result_failed:
  "fetch_failed_or_empty yf a t \<Longrightarrow> ticker_result yf s l a t = []"
  by (cases "yf t (a + 10)")
    (simp_all add: fetch_failed_or_empty_def ticker_result_def analyze_ticker_failed
      analyze_ticker_fetched)

lemma ticker_result_Ticker:
  "map Ticker (ticker_result yf s l a t) = (if ticker_result yf s l a t \<noteq> [] then [t] else [])"
proof (cases "snd (analyze_ticker [] yf t s l a)")
  case (Inl e)
  then show ?thesis by (simp add: ticker_result_def)
next
  case (Inr res)
  show ?thesis
  proof (cases res)
    case None
    then show ?thesis using Inr by (simp add: ticker_result_def)
  next
    case (Some r)
    obtain w' where "analyze_ticker [] yf t s l a = (w', Inr (Some r))"
      using Inr Some by (cases "analyze_ticker [] yf t s l a") simp
    from analyze_ticker_Some[OF this] have "Ticker r = t"
      unfolding analyze_latest_Some_iff by auto
    then show ?thesis using Inr Some by (simp add: ticker_result_def)
  qed
qed

lemma concat_ticker_result_filter:
  "concat (map (ticker_result yf s l a) (filter (\<lambda>t. \<not> fetch_failed_or_empty yf a t) ts))
     = concat (map (ticker_result yf s l a) ts)"
  by (induction ts) (simp_all add: ticker_result_failed)

lemma map_Ticker_results:
  "map Ticker (concat (map (ticker_result yf s l a) ts))
     = filter (\<lambda>t. ticker_result yf s l a t \<noteq> []) ts"
  by (induction ts) (simp_all add: ticker_result_Ticker)

text \<open>
  C6. For every list of tickers the loop of \<^verbatim>\<open>main\<close> ends without an exception. It
  fetches each ticker once, in input order, with a look-back of \<open>aroc_weeks + 10\<close> weeks.
  The results are what the tickers contribute one by one, in input order: the tickers of
  the results are the matching tickers in the order of the input, and a ticker whose fetch
  failed or whose series is empty contributes nothing (leaving such tickers out of the
  input gives the same results). \<^verbatim>\<open>main\<close> never ends with an exception of the loop.
\<close>

theorem scan_loop_completes:
  "\<exists>results.
     scan_loop w yf to_scan sma_short sma_long aroc_weeks []
       = (w @ map (\<lambda>t. (t, aroc_weeks + 10)) to_scan, Inr results) \<and>
     results = concat (map (ticker_result yf sma_short sma_long aroc_weeks) to_scan) \<and>
     results = concat (map (ticker_result yf sma_short sma_long aroc_weeks)
                 (filter (\<lambda>t. \<not> fetch_failed_or_empty yf aroc_weeks t) to_scan)) \<and>
     map Ticker results
       = filter (\<lambda>t. ticker_result yf sma_short sma_long aroc_weeks t \<noteq> []) to_scan \<and>
     (\<forall>e. snd (main w sp500 nasdaq100 yf selected_tickers sma_short sma_long aroc_weeks run_scan)
            \<noteq> Raised e)"
proof -
  have "\<forall>e. snd (main w sp500 nasdaq100 yf selected_tickers sma_short sma_long aroc_weeks run_scan)
            \<noteq> Raised e"
    by (simp add: main_def Let_def scan_loop_eq)
  then show ?thesis
    by (simp add: scan_loop_eq concat_ticker_result_filter map_Ticker_results)
qed

section \<open>The ticker universe\<close>

text \<open>
  C9. \<^verbatim>\<open>get_all_tickers\<close> returns the symbols of the two lists, each once, in ascending
  order: the sorted enumeration of the union of the two sets, whatever the order and the
  duplicates of the lists. With two empty lists it returns the empty list, and \<^verbatim>\<open>main\<close>
  stops before any ticker is fetched.
\<close>

theorem get_all_tickers_sorted_union:
  "set (get_all_tickers sp500 nasdaq100) = set sp500 \<union> set nasdaq100 \<and>
   distinct (get_all_tickers sp500 nasdaq100) \<and>
   sorted (get_all_tickers sp500 nasdaq100) \<and>
   get_all_tickers sp500 nasdaq100 = sorted_list_of_set (set sp500 \<union> set nasdaq100) \<and>
   get_all_tickers [] [] = [] \<and>
   main w [] [] yf selected_tickers sma_short sma_long aroc_weeks run_scan = (w, Stopped)"
proof -
  have "sorted_list_of_set (set (sp500 @ nasdaq100)) = sort (remdups (sp500 @ nasdaq100))"
    by (rule sorted_list_of_set_sort_remdups)
  then show ?thesis by (simp add: get_all_tickers_def main_def)
qed

end
